theory Spec2Isabelle
  imports Main "HOL-Library.Word"
begin

section \<open>ME480FSM: the rising edge counter and the two timers\<close>

text \<open>
  The library has three classes, each a small state machine advanced by one call of
  its \<^verbatim>\<open>update\<close> member per control cycle. Each class is a record of its fields, each
  member function a function from the object before the call to the object after it.

  The widths of \<^verbatim>\<open>int\<close>, \<^verbatim>\<open>long\<close> and \<^verbatim>\<open>unsigned long\<close> depend on the board
  (16 and 32 bits on the AVR boards, 32 and 32 on the ARM ones), so they are type
  parameters: \<open>'i word\<close> is \<^verbatim>\<open>int\<close>, \<open>'l word\<close> is \<^verbatim>\<open>long\<close> or
  \<^verbatim>\<open>unsigned long\<close>. A signed field is read with \<open>sint\<close>; the unsigned ones are
  compared and subtracted as words.
\<close>

subsection \<open>RisingEdgeCounter\<close>

record (overloaded) ('i, 'l) RisingEdgeCounter =
  preset :: "'l word"
  count :: "'i word"
  CNT :: bool
  state_Waiting :: bool
  state_Up :: bool
  state_Down :: bool
  state_RST :: bool
  in_Up_Old :: bool
  in_Down_Old :: bool

text \<open>
  The constructor assigns to the fields of the object under construction; \<open>this\<close> is
  the storage as it was handed to the constructor.
\<close>

definition RisingEdgeCounter_ctor ::
  "('i::len, 'l::len) RisingEdgeCounter \<Rightarrow> 'l word \<Rightarrow> ('i, 'l) RisingEdgeCounter" where
  "RisingEdgeCounter_ctor this preset_arg =
     this\<lparr>preset := preset_arg,
          RisingEdgeCounter.state_Waiting := True,
          state_Up := False,
          state_Down := False,
          state_RST := False,
          in_Up_Old := False,
          in_Down_Old := False,
          count := 0\<rparr>"

text \<open>
  \<^verbatim>\<open>update\<close>, block by block. \<^verbatim>\<open>count++\<close> and \<^verbatim>\<open>count--\<close> are the machine's
  addition and subtraction on \<^verbatim>\<open>int\<close>: C++ leaves \<^verbatim>\<open>count++\<close> at the largest
  \<^verbatim>\<open>int\<close> undefined, and the boards' compilers emit an add that wraps to the smallest,
  which is what \<open>+\<close> on a word does. \<^verbatim>\<open>count > 0\<close> is a signed comparison, and in
  \<^verbatim>\<open>count >= preset\<close> the \<^verbatim>\<open>int\<close> is converted to \<^verbatim>\<open>long\<close>, which keeps its value.
\<close>

definition RisingEdgeCounter_update ::
  "('i::len, 'l::len) RisingEdgeCounter \<Rightarrow> bool \<Rightarrow> bool \<Rightarrow> bool \<Rightarrow> ('i, 'l) RisingEdgeCounter" where
  "RisingEdgeCounter_update this in_Up in_Down RST =
     (let upp = in_Up \<and> \<not> in_Up_Old this;
          dnp = in_Down \<and> \<not> in_Down_Old this;

          waitToUp = RisingEdgeCounter.state_Waiting this \<and> upp \<and> \<not> (dnp \<or> RST);
          waitToDown = RisingEdgeCounter.state_Waiting this \<and> dnp \<and> \<not> (upp \<or> RST);
          waitToRST = RisingEdgeCounter.state_Waiting this \<and> RST;
          waitToWait = RisingEdgeCounter.state_Waiting this
                         \<and> \<not> (waitToUp \<or> waitToDown \<or> waitToRST);
          upToWait = state_Up this;
          upToRST = state_Up this \<and> RST;
          downToWait = state_Down this;
          downToRST = state_Up this \<and> RST;
          RSTToWait = state_RST this \<and> \<not> RST;
          RSTToRST = state_RST this \<and> \<not> RSTToWait;

          state_Waiting' = (upToWait \<or> downToWait \<or> RSTToWait \<or> waitToWait);
          state_Up' = waitToUp;
          state_Down' = waitToDown;
          state_RST' = (waitToRST \<or> upToRST \<or> downToRST \<or> RSTToRST);

          count1 = (if state_Up' then count this + 1 else count this);
          count2 = (if state_Down' then (if 0 < sint count1 then count1 - 1 else count1)
                    else count1);
          count3 = (if state_RST' then 0 else count2)
      in this\<lparr>RisingEdgeCounter.state_Waiting := state_Waiting',
              state_Up := state_Up',
              state_Down := state_Down',
              state_RST := state_RST',
              count := count3,
              CNT := (sint (preset this) \<le> sint count3),
              in_Up_Old := in_Up,
              in_Down_Old := in_Down\<rparr>)"

text \<open>
  A run of the counter: one \<^verbatim>\<open>update\<close> per element of the list, each element the
  values of \<^verbatim>\<open>in_Up\<close>, \<^verbatim>\<open>in_Down\<close> and \<^verbatim>\<open>RST\<close> of that call.
\<close>

fun RisingEdgeCounter_run ::
  "('i::len, 'l::len) RisingEdgeCounter \<Rightarrow> (bool \<times> bool \<times> bool) list \<Rightarrow> ('i, 'l) RisingEdgeCounter" where
  "RisingEdgeCounter_run this [] = this"
| "RisingEdgeCounter_run this ((in_Up, in_Down, RST) # calls) =
     RisingEdgeCounter_run (RisingEdgeCounter_update this in_Up in_Down RST) calls"

text \<open>An object in zeroed storage, as a global object is before its constructor runs.\<close>

definition zeroed_RisingEdgeCounter :: "('i::len, 'l::len) RisingEdgeCounter" where
  "zeroed_RisingEdgeCounter =
     \<lparr>preset = 0, count = 0, CNT = False, state_Waiting = False, state_Up = False,
      state_Down = False, state_RST = False, in_Up_Old = False, in_Down_Old = False\<rparr>"

text \<open>The mode flags, read as a mode: exactly this flag is set.\<close>

definition only_Waiting :: "('i::len, 'l::len) RisingEdgeCounter \<Rightarrow> bool" where
  "only_Waiting c \<longleftrightarrow>
     RisingEdgeCounter.state_Waiting c \<and> \<not> state_Up c \<and> \<not> state_Down c \<and> \<not> state_RST c"

definition only_Up :: "('i::len, 'l::len) RisingEdgeCounter \<Rightarrow> bool" where
  "only_Up c \<longleftrightarrow>
     \<not> RisingEdgeCounter.state_Waiting c \<and> state_Up c \<and> \<not> state_Down c \<and> \<not> state_RST c"

definition only_Down :: "('i::len, 'l::len) RisingEdgeCounter \<Rightarrow> bool" where
  "only_Down c \<longleftrightarrow>
     \<not> RisingEdgeCounter.state_Waiting c \<and> \<not> state_Up c \<and> state_Down c \<and> \<not> state_RST c"

definition only_RST :: "('i::len, 'l::len) RisingEdgeCounter \<Rightarrow> bool" where
  "only_RST c \<longleftrightarrow>
     \<not> RisingEdgeCounter.state_Waiting c \<and> \<not> state_Up c \<and> \<not> state_Down c \<and> state_RST c"

definition one_mode :: "('i::len, 'l::len) RisingEdgeCounter \<Rightarrow> bool" where
  "one_mode c \<longleftrightarrow> only_Waiting c \<or> only_Up c \<or> only_Down c \<or> only_RST c"

definition some_mode :: "('i::len, 'l::len) RisingEdgeCounter \<Rightarrow> bool" where
  "some_mode c \<longleftrightarrow>
     RisingEdgeCounter.state_Waiting c \<or> state_Up c \<or> state_Down c \<or> state_RST c"

text \<open>
  \<open>n\<close> presses of the up button: \<^verbatim>\<open>in_Up\<close> goes true for one call and false for the
  next, \<open>n\<close> times, with \<^verbatim>\<open>in_Down\<close> and \<^verbatim>\<open>RST\<close> false.
\<close>

definition pulses :: "nat \<Rightarrow> (bool \<times> bool \<times> bool) list" where
  "pulses n = concat (replicate n [(True, False, False), (False, False, False)])"

subsection \<open>FSMTimer and FSMFastTimer\<close>

text \<open>
  \<^verbatim>\<open>millis()\<close> and \<^verbatim>\<open>micros()\<close> are the board's clocks. A member function that reads
  the clock takes the reading as its last argument.
\<close>

record (overloaded) 'l FSMTimer =
  duration :: "'l word"
  elapsed :: "'l word"
  TMR :: bool
  startTime :: "'l word"
  state_Waiting :: bool
  state_Timing :: bool

definition FSMTimer_ctor :: "('l::len) FSMTimer \<Rightarrow> 'l word \<Rightarrow> 'l word \<Rightarrow> 'l FSMTimer" where
  "FSMTimer_ctor this duration_arg millis =
     this\<lparr>FSMTimer.duration := duration_arg,
          FSMTimer.state_Waiting := True,
          FSMTimer.state_Timing := False,
          FSMTimer.startTime := millis,
          FSMTimer.elapsed := 0\<rparr>"

definition FSMTimer_update :: "('l::len) FSMTimer \<Rightarrow> bool \<Rightarrow> 'l word \<Rightarrow> 'l FSMTimer" where
  "FSMTimer_update this enable millis =
     (let waitToTime = FSMTimer.state_Waiting this \<and> enable;
          waitToWait = FSMTimer.state_Waiting this \<and> \<not> enable;
          timeToWait = FSMTimer.state_Timing this \<and> \<not> enable;
          timeToTime = FSMTimer.state_Timing this \<and> enable;

          state_Waiting' = (timeToWait \<or> waitToWait);
          state_Timing' = (waitToTime \<or> timeToTime);

          curTime = millis;
          startTime' = (if state_Waiting' then curTime else FSMTimer.startTime this);
          elapsed' = curTime - startTime'
      in this\<lparr>FSMTimer.state_Waiting := state_Waiting',
              FSMTimer.state_Timing := state_Timing',
              FSMTimer.startTime := startTime',
              FSMTimer.elapsed := elapsed',
              FSMTimer.TMR := (FSMTimer.duration this \<le> elapsed')\<rparr>)"

fun FSMTimer_run :: "('l::len) FSMTimer \<Rightarrow> (bool \<times> 'l word) list \<Rightarrow> 'l FSMTimer" where
  "FSMTimer_run this [] = this"
| "FSMTimer_run this ((enable, millis) # calls) =
     FSMTimer_run (FSMTimer_update this enable millis) calls"

record (overloaded) 'l FSMFastTimer =
  duration :: "'l word"
  elapsed :: "'l word"
  TMR :: bool
  startTime :: "'l word"
  state_Waiting :: bool
  state_Timing :: bool

definition FSMFastTimer_ctor ::
  "('l::len) FSMFastTimer \<Rightarrow> 'l word \<Rightarrow> 'l word \<Rightarrow> 'l FSMFastTimer" where
  "FSMFastTimer_ctor this duration_arg micros =
     this\<lparr>FSMFastTimer.duration := duration_arg,
          FSMFastTimer.state_Waiting := True,
          FSMFastTimer.state_Timing := False,
          FSMFastTimer.startTime := micros,
          FSMFastTimer.elapsed := 0\<rparr>"

definition FSMFastTimer_update ::
  "('l::len) FSMFastTimer \<Rightarrow> bool \<Rightarrow> 'l word \<Rightarrow> 'l FSMFastTimer" where
  "FSMFastTimer_update this enable micros =
     (let waitToTime = FSMFastTimer.state_Waiting this \<and> enable;
          waitToWait = FSMFastTimer.state_Waiting this \<and> \<not> enable;
          timeToWait = FSMFastTimer.state_Timing this \<and> \<not> enable;
          timeToTime = FSMFastTimer.state_Timing this \<and> enable;

          state_Waiting' = (timeToWait \<or> waitToWait);
          state_Timing' = (waitToTime \<or> timeToTime);

          curTime = micros;
          startTime' = (if state_Waiting' then curTime else FSMFastTimer.startTime this);
          elapsed' = curTime - startTime'
      in this\<lparr>FSMFastTimer.state_Waiting := state_Waiting',
              FSMFastTimer.state_Timing := state_Timing',
              FSMFastTimer.startTime := startTime',
              FSMFastTimer.elapsed := elapsed',
              FSMFastTimer.TMR := (FSMFastTimer.duration this \<le> elapsed')\<rparr>)"

fun FSMFastTimer_run ::
  "('l::len) FSMFastTimer \<Rightarrow> (bool \<times> 'l word) list \<Rightarrow> 'l FSMFastTimer" where
  "FSMFastTimer_run this [] = this"
| "FSMFastTimer_run this ((enable, micros) # calls) =
     FSMFastTimer_run (FSMFastTimer_update this enable micros) calls"

definition zeroed_FSMTimer :: "('l::len) FSMTimer" where
  "zeroed_FSMTimer =
     \<lparr>FSMTimer.duration = 0, FSMTimer.elapsed = 0, FSMTimer.TMR = False,
      FSMTimer.startTime = 0, FSMTimer.state_Waiting = False, FSMTimer.state_Timing = False\<rparr>"

definition zeroed_FSMFastTimer :: "('l::len) FSMFastTimer" where
  "zeroed_FSMFastTimer =
     \<lparr>FSMFastTimer.duration = 0, FSMFastTimer.elapsed = 0, FSMFastTimer.TMR = False,
      FSMFastTimer.startTime = 0, FSMFastTimer.state_Waiting = False,
      FSMFastTimer.state_Timing = False\<rparr>"

section \<open>Evaluation on concrete objects\<close>

lemmas counter_eval =
  RisingEdgeCounter_update_def RisingEdgeCounter_ctor_def zeroed_RisingEdgeCounter_def Let_def

lemmas mode_defs = only_Waiting_def only_Up_def only_Down_def only_RST_def one_mode_def

lemmas timer_eval =
  FSMTimer_update_def FSMTimer_ctor_def zeroed_FSMTimer_def
  FSMFastTimer_update_def FSMFastTimer_ctor_def zeroed_FSMFastTimer_def Let_def

text \<open>
  The counter with preset 2 through six calls: count 0, 1, 1 (the input is held, no second
  count), 1, 2 with \<^verbatim>\<open>CNT\<close> set, and 0 after the reset.
\<close>

lemma counter_scenario:
  "map (\<lambda>calls. sint (count (RisingEdgeCounter_run
          (RisingEdgeCounter_ctor (zeroed_RisingEdgeCounter :: (16, 32) RisingEdgeCounter) 2)
          calls)))
     [[(False, False, False)],
      [(False, False, False), (True, False, False)],
      [(False, False, False), (True, False, False), (True, False, False)],
      [(False, False, False), (True, False, False), (True, False, False),
       (False, False, False)],
      [(False, False, False), (True, False, False), (True, False, False),
       (False, False, False), (True, False, False)],
      [(False, False, False), (True, False, False), (True, False, False),
       (False, False, False), (True, False, False), (False, False, True)]]
   = [0, 1, 1, 1, 2, 0]"
  by (simp add: counter_eval)

text \<open>
  The timer with duration 100, enabled, at clock readings 0, 50, 100 and 150: elapsed is
  the reading, and \<^verbatim>\<open>TMR\<close> is set from 100 on.
\<close>

lemma timer_scenario:
  "map (\<lambda>calls. (FSMTimer.elapsed
           (FSMTimer_run (FSMTimer_ctor (zeroed_FSMTimer :: 32 FSMTimer) 100 0) calls),
         FSMTimer.TMR
           (FSMTimer_run (FSMTimer_ctor (zeroed_FSMTimer :: 32 FSMTimer) 100 0) calls)))
     [[(True, 0)],
      [(True, 0), (True, 50)],
      [(True, 0), (True, 50), (True, 100)],
      [(True, 0), (True, 50), (True, 100), (True, 150)]]
   = [(0, False), (50, False), (100, True), (150, True)]"
  by (simp add: timer_eval)

section \<open>The counter: what one call does\<close>

lemma update_preset [simp]:
  "preset (RisingEdgeCounter_update c u d r) = preset c"
  by (simp add: RisingEdgeCounter_update_def Let_def)

lemma update_CNT:
  "CNT (RisingEdgeCounter_update c u d r)
     = (sint (preset c) \<le> sint (count (RisingEdgeCounter_update c u d r)))"
  by (simp add: RisingEdgeCounter_update_def Let_def)

lemma run_append:
  "RisingEdgeCounter_run c (xs @ ys) = RisingEdgeCounter_run (RisingEdgeCounter_run c xs) ys"
  by (induction xs arbitrary: c) auto

lemma run_snoc:
  "RisingEdgeCounter_run c (xs @ [(u, d, r)])
     = RisingEdgeCounter_update (RisingEdgeCounter_run c xs) u d r"
  by (simp add: run_append)

lemma run_preset [simp]: "preset (RisingEdgeCounter_run c calls) = preset c"
  by (induction calls arbitrary: c) auto

lemma ctor_preset [simp]: "preset (RisingEdgeCounter_ctor this p) = p"
  by (simp add: RisingEdgeCounter_ctor_def)

lemma ctor_Waiting:
  "only_Waiting (RisingEdgeCounter_ctor this p)"
  "\<not> in_Up_Old (RisingEdgeCounter_ctor this p)"
  "count (RisingEdgeCounter_ctor this p) = 0"
  by (simp_all add: only_Waiting_def RisingEdgeCounter_ctor_def)

text \<open>The count after a call is 0, the old count, one more, or (from above 0) one less.\<close>

lemma update_count_cases:
  "count (RisingEdgeCounter_update c u d r) = 0
   \<or> count (RisingEdgeCounter_update c u d r) = count c
   \<or> count (RisingEdgeCounter_update c u d r) = count c + 1
   \<or> (0 < sint (count c) \<and> count (RisingEdgeCounter_update c u d r) = count c - 1)"
  by (auto simp add: RisingEdgeCounter_update_def Let_def)

subsection \<open>At least one mode flag is set\<close>

lemma some_mode_update: "some_mode c \<Longrightarrow> some_mode (RisingEdgeCounter_update c u d r)"
  by (auto simp add: some_mode_def RisingEdgeCounter_update_def Let_def)

lemma some_mode_ctor: "some_mode (RisingEdgeCounter_ctor this p)"
  by (simp add: some_mode_def RisingEdgeCounter_ctor_def)

lemma some_mode_run: "some_mode c \<Longrightarrow> some_mode (RisingEdgeCounter_run c calls)"
  by (induction calls arbitrary: c) (auto simp add: some_mode_update)

subsection \<open>Signed increment and decrement without overflow\<close>

lemma sint_succ:
  fixes c :: "'i::len word"
  assumes "0 \<le> sint c" and "sint c < 2 ^ (LENGTH('i) - 1) - 1"
  shows "sint (c + 1) = sint c + 1"
proof -
  have "1 < LENGTH('i)"
  proof (rule ccontr)
    assume "\<not> 1 < LENGTH('i)"
    then have "LENGTH('i) - 1 = 0" using len_gt_0 [where 'a='i] by arith
    with assms show False by simp
  qed
  then have one: "sint (1 :: 'i word) = 1" by simp
  have "sint (c + 1) = signed_take_bit (LENGTH('i) - 1) (sint c + 1)"
    unfolding sint_word_add one ..
  also have "\<dots> = sint c + 1"
    using assms by (intro signed_take_bit_int_eq_self) auto
  finally show ?thesis .
qed

lemma sint_pred:
  fixes c :: "'i::len word"
  assumes "0 < sint c"
  shows "sint (c - 1) = sint c - 1"
proof -
  have "1 < LENGTH('i)"
  proof (rule ccontr)
    assume "\<not> 1 < LENGTH('i)"
    then have "LENGTH('i) - 1 = 0" using len_gt_0 [where 'a='i] by arith
    with sint_lt [of c] assms show False by simp
  qed
  then have one: "sint (1 :: 'i word) = 1" by simp
  have "sint (c - 1) = signed_take_bit (LENGTH('i) - 1) (sint c - 1)"
    unfolding sint_word_diff one ..
  also have "\<dots> = sint c - 1"
    using assms sint_lt [of c] by (intro signed_take_bit_int_eq_self) auto
  finally show ?thesis .
qed

lemma sint_msb_pow: "sint ((2::'i::len word) ^ (LENGTH('i) - 1)) < 0"
proof -
  have "bit ((2::'i word) ^ (LENGTH('i) - 1)) (LENGTH('i) - 1)"
    by (simp add: bit_simps)
  then show ?thesis
    by (simp add: bit_last_iff)
qed

lemma update_count_bounds:
  fixes c :: "('i::len, 'l::len) RisingEdgeCounter"
  assumes "0 \<le> sint (count c)" and "sint (count c) < 2 ^ (LENGTH('i) - 1) - 1"
  shows "0 \<le> sint (count (RisingEdgeCounter_update c u d r))
         \<and> sint (count (RisingEdgeCounter_update c u d r)) \<le> sint (count c) + 1"
  using update_count_cases [of c u d r] assms sint_succ [of "count c"] sint_pred [of "count c"]
  by auto

lemma run_count_bounds:
  fixes this :: "('i::len, 'l::len) RisingEdgeCounter"
  assumes "length calls < 2 ^ (LENGTH('i) - 1)"
  shows "0 \<le> sint (count (RisingEdgeCounter_run (RisingEdgeCounter_ctor this p) calls))
         \<and> sint (count (RisingEdgeCounter_run (RisingEdgeCounter_ctor this p) calls))
             \<le> int (length calls)"
  using assms
proof (induction calls rule: rev_induct)
  case Nil
  show ?case by (simp add: RisingEdgeCounter_ctor_def)
next
  case (snoc x xs)
  obtain u d r where x: "x = (u, d, r)" by (cases x)
  let ?c = "RisingEdgeCounter_run (RisingEdgeCounter_ctor this p) xs"
  from snoc.prems have len: "length xs + 1 < 2 ^ (LENGTH('i) - 1)" by simp
  then have "int (length xs + 1) < int (2 ^ (LENGTH('i) - 1))" by (simp only: of_nat_less_iff)
  then have len': "int (length xs) + 1 < 2 ^ (LENGTH('i) - 1)" by simp
  from len have "length xs < 2 ^ (LENGTH('i) - 1)" by simp
  from snoc.IH [OF this]
  have ih: "0 \<le> sint (count ?c)" "sint (count ?c) \<le> int (length xs)" by auto
  from len' ih have "sint (count ?c) < 2 ^ (LENGTH('i) - 1) - 1" by linarith
  from update_count_bounds [OF ih(1) this, of u d r] ih
  show ?case by (simp add: x run_snoc)
qed

subsection \<open>Presses of the up button\<close>

lemma pulse_pair:
  assumes "only_Waiting c" and "\<not> in_Up_Old c"
  shows "only_Waiting (RisingEdgeCounter_run c [(True, False, False), (False, False, False)])
         \<and> \<not> in_Up_Old (RisingEdgeCounter_run c [(True, False, False), (False, False, False)])
         \<and> count (RisingEdgeCounter_run c [(True, False, False), (False, False, False)])
             = count c + 1"
  using assms by (simp add: only_Waiting_def RisingEdgeCounter_update_def Let_def)

lemma run_pulses:
  "only_Waiting c \<Longrightarrow> \<not> in_Up_Old c \<Longrightarrow>
   only_Waiting (RisingEdgeCounter_run c (pulses n))
   \<and> \<not> in_Up_Old (RisingEdgeCounter_run c (pulses n))
   \<and> count (RisingEdgeCounter_run c (pulses n)) = count c + of_nat n"
proof (induction n arbitrary: c)
  case 0
  then show ?case by (simp add: pulses_def)
next
  case (Suc n)
  let ?c = "RisingEdgeCounter_run c [(True, False, False), (False, False, False)]"
  from pulse_pair [OF Suc.prems]
  have c: "only_Waiting ?c" "\<not> in_Up_Old ?c" "count ?c = count c + 1" by auto
  have "RisingEdgeCounter_run c (pulses (Suc n)) = RisingEdgeCounter_run ?c (pulses n)"
    by (simp add: pulses_def)
  with Suc.IH [OF c(1) c(2)] c(3) show ?case by (simp add: add.assoc add.commute)
qed

text \<open>
  Whatever the width of \<^verbatim>\<open>int\<close>, as many presses as half its range leave the count
  negative.
\<close>

lemma count_wraps:
  fixes this :: "('i::len, 'l::len) RisingEdgeCounter"
  shows "sint (count (RisingEdgeCounter_run (RisingEdgeCounter_ctor this p)
      (pulses (2 ^ (LENGTH('i) - 1))))) < 0"
  using run_pulses [OF ctor_Waiting(1) ctor_Waiting(2), of this p "2 ^ (LENGTH('i) - 1)"]
    sint_msb_pow [where 'i='i]
  by (simp add: ctor_Waiting)

subsection \<open>Single calls from a known mode\<close>

lemma hold_up:
  "in_Up_Old c \<Longrightarrow>
   in_Up_Old (RisingEdgeCounter_update c True False False)
   \<and> count (RisingEdgeCounter_update c True False False) = count c"
  by (simp add: RisingEdgeCounter_update_def Let_def)

lemma run_hold_up:
  "in_Up_Old c \<Longrightarrow> count (RisingEdgeCounter_run c (replicate n (True, False, False))) = count c"
  by (induction n arbitrary: c) (auto simp add: hold_up)

lemma idle_call:
  "some_mode c \<Longrightarrow>
   only_Waiting (RisingEdgeCounter_update c False False False)
   \<and> \<not> in_Up_Old (RisingEdgeCounter_update c False False False)
   \<and> \<not> in_Down_Old (RisingEdgeCounter_update c False False False)"
  by (auto simp add: some_mode_def only_Waiting_def RisingEdgeCounter_update_def Let_def)

lemma rising_up:
  "only_Waiting c \<Longrightarrow> \<not> in_Up_Old c \<Longrightarrow>
   count (RisingEdgeCounter_update c True False False) = count c + 1
   \<and> in_Up_Old (RisingEdgeCounter_update c True False False)"
  by (simp add: only_Waiting_def RisingEdgeCounter_update_def Let_def)

text \<open>
  From the counting-down mode a call with \<^verbatim>\<open>RST\<close> true goes to the waiting mode and
  keeps the count: \<^verbatim>\<open>downToRST\<close> tests \<^verbatim>\<open>state_Up\<close>.
\<close>

lemma down_ignores_reset:
  "only_Down c \<Longrightarrow>
   only_Waiting (RisingEdgeCounter_update c u d True)
   \<and> count (RisingEdgeCounter_update c u d True) = count c"
  by (simp add: mode_defs RisingEdgeCounter_update_def Let_def)

text \<open>From the counting-up mode the same call sets the waiting and the reset flag.\<close>

lemma up_reset_sets_two_flags:
  "only_Up c \<Longrightarrow>
   RisingEdgeCounter.state_Waiting (RisingEdgeCounter_update c u d True)
   \<and> state_RST (RisingEdgeCounter_update c u d True)
   \<and> count (RisingEdgeCounter_update c u d True) = 0"
  by (simp add: mode_defs RisingEdgeCounter_update_def Let_def)

section \<open>The mode flags of the counter\<close>

text \<open>
  C1. The claim is that exactly one of the four mode flags is set in every state the
  counter can reach. The code does not keep it: a press of the up button followed by a
  call with \<^verbatim>\<open>RST\<close> true leaves both \<^verbatim>\<open>state_Waiting\<close> and \<^verbatim>\<open>state_RST\<close> set, for every
  preset and whatever the storage held before construction, because \<^verbatim>\<open>upToWait\<close> is not
  guarded by \<^verbatim>\<open>!RST\<close> while \<^verbatim>\<open>upToRST\<close> fires as well.
\<close>

theorem up_then_reset_two_modes:
  "RisingEdgeCounter.state_Waiting
     (RisingEdgeCounter_run (RisingEdgeCounter_ctor this p)
        [(True, False, False), (False, False, True)])
   \<and> state_RST
     (RisingEdgeCounter_run (RisingEdgeCounter_ctor this p)
        [(True, False, False), (False, False, True)])
   \<and> \<not> one_mode
     (RisingEdgeCounter_run (RisingEdgeCounter_ctor this p)
        [(True, False, False), (False, False, True)])"
  by (simp add: counter_eval mode_defs)

text \<open>
  C2. The claim is that from the counting-down mode a call with \<^verbatim>\<open>RST\<close> true goes to
  the reset mode and clears the count. On the code it does not: two presses of the up
  button and one of the down button leave the counter counting down with count 1, and the
  next call, with \<^verbatim>\<open>RST\<close> true, goes to the waiting mode, the reset flag clear and the
  count still 1.
\<close>

theorem down_with_reset_goes_to_waiting:
  "only_Down (RisingEdgeCounter_run
      (RisingEdgeCounter_ctor (zeroed_RisingEdgeCounter :: (16, 32) RisingEdgeCounter) 5)
      [(True, False, False), (False, False, False), (True, False, False),
       (False, False, False), (False, True, False)])
   \<and> only_Waiting (RisingEdgeCounter_update (RisingEdgeCounter_run
      (RisingEdgeCounter_ctor (zeroed_RisingEdgeCounter :: (16, 32) RisingEdgeCounter) 5)
      [(True, False, False), (False, False, False), (True, False, False),
       (False, False, False), (False, True, False)]) False False True)
   \<and> \<not> state_RST (RisingEdgeCounter_update (RisingEdgeCounter_run
      (RisingEdgeCounter_ctor (zeroed_RisingEdgeCounter :: (16, 32) RisingEdgeCounter) 5)
      [(True, False, False), (False, False, False), (True, False, False),
       (False, False, False), (False, True, False)]) False False True)
   \<and> count (RisingEdgeCounter_update (RisingEdgeCounter_run
      (RisingEdgeCounter_ctor (zeroed_RisingEdgeCounter :: (16, 32) RisingEdgeCounter) 5)
      [(True, False, False), (False, False, False), (True, False, False),
       (False, False, False), (False, True, False)]) False False True) = 1"
  by (simp add: counter_eval mode_defs)

section \<open>The count\<close>

text \<open>
  Below the largest \<^verbatim>\<open>int\<close> the count behaves as an integer: a call made with the
  count between 0 and the largest \<^verbatim>\<open>int\<close>, that one excluded, leaves a count of at
  least 0 (\<open>update_count_bounds\<close>), and a call that counts down at 0 leaves it at 0.
\<close>

lemma count_down_at_zero:
  "count c = 0 \<Longrightarrow> state_Down (RisingEdgeCounter_update c u d r) \<Longrightarrow>
   count (RisingEdgeCounter_update c u d r) = 0"
  by (auto simp add: RisingEdgeCounter_update_def Let_def split: if_splits)

text \<open>
  C3. The claim is that the count is never negative, after any sequence of calls. The code
  does not keep it: \<^verbatim>\<open>count++\<close> has no guard at the largest \<^verbatim>\<open>int\<close>, where the
  decrement has one at 0. On a board whose \<^verbatim>\<open>int\<close> has 16 bits, 32768 presses of the up
  button take the count from 32767 to -32768.
\<close>

theorem count_negative_after_overflow:
  "sint (count (RisingEdgeCounter_run
      (RisingEdgeCounter_ctor (zeroed_RisingEdgeCounter :: (16, 32) RisingEdgeCounter) 0)
      (pulses 32768))) = - 32768
   \<and> \<not> 0 \<le> sint (count (RisingEdgeCounter_run
      (RisingEdgeCounter_ctor (zeroed_RisingEdgeCounter :: (16, 32) RisingEdgeCounter) 0)
      (pulses 32768)))"
  using run_pulses [OF ctor_Waiting(1) ctor_Waiting(2),
      of "zeroed_RisingEdgeCounter :: (16, 32) RisingEdgeCounter" 0 32768]
  by (simp add: ctor_Waiting)

text \<open>
  A rising edge on \<^verbatim>\<open>in_Up\<close>, in the machine's arithmetic. Take any state the counter
  can reach. A call with all three inputs false, then a call with \<^verbatim>\<open>in_Up\<close> true and
  the other two false: the second call applies \<^verbatim>\<open>count++\<close> once. Any number of further
  calls with \<^verbatim>\<open>in_Up\<close> held true and the other two false leave the count where the
  second call put it.
\<close>

lemma rising_edge_increments_once:
  "count (RisingEdgeCounter_update
       (RisingEdgeCounter_update
          (RisingEdgeCounter_run (RisingEdgeCounter_ctor this p) calls) False False False)
       True False False)
     = count (RisingEdgeCounter_update
          (RisingEdgeCounter_run (RisingEdgeCounter_ctor this p) calls) False False False) + 1
   \<and> count (RisingEdgeCounter_run
        (RisingEdgeCounter_update
          (RisingEdgeCounter_update
            (RisingEdgeCounter_run (RisingEdgeCounter_ctor this p) calls) False False False)
          True False False)
        (replicate n (True, False, False)))
     = count (RisingEdgeCounter_update
         (RisingEdgeCounter_update
            (RisingEdgeCounter_run (RisingEdgeCounter_ctor this p) calls) False False False)
         True False False)"
proof -
  let ?start = "RisingEdgeCounter_run (RisingEdgeCounter_ctor this p) calls"
  let ?idle = "RisingEdgeCounter_update ?start False False False"
  let ?after = "RisingEdgeCounter_update ?idle True False False"
  have "some_mode ?start" by (rule some_mode_run [OF some_mode_ctor])
  from idle_call [OF this] have idle: "only_Waiting ?idle" "\<not> in_Up_Old ?idle" by auto
  from rising_up [OF idle] have after: "count ?after = count ?idle + 1" "in_Up_Old ?after"
    by auto
  from run_hold_up [OF after(2)] after(1) show ?thesis by simp
qed

text \<open>As an integer the count goes up by 1 when it is at least 0 and below the largest.\<close>

lemma rising_edge_adds_one_below_int_max:
  fixes this :: "('i::len, 'l::len) RisingEdgeCounter"
  assumes "0 \<le> sint (count (RisingEdgeCounter_update
      (RisingEdgeCounter_run (RisingEdgeCounter_ctor this p) calls) False False False))"
    and "sint (count (RisingEdgeCounter_update
      (RisingEdgeCounter_run (RisingEdgeCounter_ctor this p) calls) False False False))
        < 2 ^ (LENGTH('i) - 1) - 1"
  shows "sint (count (RisingEdgeCounter_update
       (RisingEdgeCounter_update
          (RisingEdgeCounter_run (RisingEdgeCounter_ctor this p) calls) False False False)
       True False False))
     = sint (count (RisingEdgeCounter_update
          (RisingEdgeCounter_run (RisingEdgeCounter_ctor this p) calls) False False False)) + 1"
  using rising_edge_increments_once [of this p calls 0] sint_succ [OF assms]
  by simp

text \<open>
  C4. The claim is that a rising edge on \<^verbatim>\<open>in_Up\<close>, with the other two inputs held
  false, increases the count by exactly 1. The code does not keep it at the largest
  \<^verbatim>\<open>int\<close>: on a board whose \<^verbatim>\<open>int\<close> has 16 bits, after 32767 presses of the up
  button the counter waits with count 32767 and \<^verbatim>\<open>in_Up\<close> last seen false, and the next
  call, with \<^verbatim>\<open>in_Up\<close> true and the other two inputs false, leaves the count at -32768.
\<close>

theorem rising_edge_at_int_max_wraps:
  "only_Waiting (RisingEdgeCounter_run
      (RisingEdgeCounter_ctor (zeroed_RisingEdgeCounter :: (16, 32) RisingEdgeCounter) 0)
      (pulses 32767))
   \<and> \<not> in_Up_Old (RisingEdgeCounter_run
      (RisingEdgeCounter_ctor (zeroed_RisingEdgeCounter :: (16, 32) RisingEdgeCounter) 0)
      (pulses 32767))
   \<and> sint (count (RisingEdgeCounter_run
      (RisingEdgeCounter_ctor (zeroed_RisingEdgeCounter :: (16, 32) RisingEdgeCounter) 0)
      (pulses 32767))) = 32767
   \<and> sint (count (RisingEdgeCounter_update (RisingEdgeCounter_run
      (RisingEdgeCounter_ctor (zeroed_RisingEdgeCounter :: (16, 32) RisingEdgeCounter) 0)
      (pulses 32767)) True False False)) = - 32768"
proof -
  let ?c = "RisingEdgeCounter_run
      (RisingEdgeCounter_ctor (zeroed_RisingEdgeCounter :: (16, 32) RisingEdgeCounter) 0)
      (pulses 32767)"
  from run_pulses [OF ctor_Waiting(1) ctor_Waiting(2),
      of "zeroed_RisingEdgeCounter :: (16, 32) RisingEdgeCounter" 0 32767]
  have c: "only_Waiting ?c" "\<not> in_Up_Old ?c" "count ?c = 32767"
    by (simp_all add: ctor_Waiting)
  from rising_up [OF c(1) c(2)] c(3)
  have "count (RisingEdgeCounter_update ?c True False False) = 32767 + 1" by simp
  with c show ?thesis by simp
qed

text \<open>
  C5. In any state the counter can reach, a call that sees a rising edge on \<^verbatim>\<open>in_Up\<close>
  and on \<^verbatim>\<open>in_Down\<close> at once, with \<^verbatim>\<open>RST\<close> false, leaves the count as it was, and the
  waiting flag is the one mode flag set after it.
\<close>

theorem simultaneous_edges_cancel:
  "in_Up \<and> \<not> in_Up_Old (RisingEdgeCounter_run (RisingEdgeCounter_ctor this p) calls) \<Longrightarrow>
   in_Down \<and> \<not> in_Down_Old (RisingEdgeCounter_run (RisingEdgeCounter_ctor this p) calls) \<Longrightarrow>
   \<not> RST \<Longrightarrow>
   count (RisingEdgeCounter_update
       (RisingEdgeCounter_run (RisingEdgeCounter_ctor this p) calls) in_Up in_Down RST)
     = count (RisingEdgeCounter_run (RisingEdgeCounter_ctor this p) calls)
   \<and> only_Waiting (RisingEdgeCounter_update
       (RisingEdgeCounter_run (RisingEdgeCounter_ctor this p) calls) in_Up in_Down RST)"
  using some_mode_run [OF some_mode_ctor, of this p calls]
  by (auto simp add: some_mode_def only_Waiting_def RisingEdgeCounter_update_def Let_def)

theorem simultaneous_edges_cancel_witness:
  "\<not> in_Up_Old (RisingEdgeCounter_run
      (RisingEdgeCounter_ctor (zeroed_RisingEdgeCounter :: (16, 32) RisingEdgeCounter) 5)
      [(True, False, False), (False, False, False)])
   \<and> \<not> in_Down_Old (RisingEdgeCounter_run
      (RisingEdgeCounter_ctor (zeroed_RisingEdgeCounter :: (16, 32) RisingEdgeCounter) 5)
      [(True, False, False), (False, False, False)])
   \<and> sint (count (RisingEdgeCounter_run
      (RisingEdgeCounter_ctor (zeroed_RisingEdgeCounter :: (16, 32) RisingEdgeCounter) 5)
      [(True, False, False), (False, False, False)])) = 1
   \<and> sint (count (RisingEdgeCounter_update (RisingEdgeCounter_run
      (RisingEdgeCounter_ctor (zeroed_RisingEdgeCounter :: (16, 32) RisingEdgeCounter) 5)
      [(True, False, False), (False, False, False)]) True True False)) = 1
   \<and> only_Waiting (RisingEdgeCounter_update (RisingEdgeCounter_run
      (RisingEdgeCounter_ctor (zeroed_RisingEdgeCounter :: (16, 32) RisingEdgeCounter) 5)
      [(True, False, False), (False, False, False)]) True True False)"
  using simultaneous_edges_cancel
    [of True "zeroed_RisingEdgeCounter :: (16, 32) RisingEdgeCounter" 5
        "[(True, False, False), (False, False, False)]" True False]
  by (simp add: counter_eval mode_defs)

text \<open>
  C6. The claim is that a call with \<^verbatim>\<open>RST\<close> true leaves the count at 0 from every state
  the counter can reach. On the code the first such call does not when the counter is
  counting down: after two presses of the up button and one of the down button the count
  is 1, a call with \<^verbatim>\<open>RST\<close> true (and a rising edge on \<^verbatim>\<open>in_Up\<close>) leaves it at 1, and
  only the second such call clears it.
\<close>

theorem reset_after_down_keeps_count:
  "count (RisingEdgeCounter_run
      (RisingEdgeCounter_ctor (zeroed_RisingEdgeCounter :: (16, 32) RisingEdgeCounter) 5)
      [(True, False, False), (False, False, False), (True, False, False),
       (False, False, False), (False, True, False), (True, False, True)]) = 1
   \<and> count (RisingEdgeCounter_run
      (RisingEdgeCounter_ctor (zeroed_RisingEdgeCounter :: (16, 32) RisingEdgeCounter) 5)
      [(True, False, False), (False, False, False), (True, False, False),
       (False, False, False), (False, True, False), (True, False, True),
       (True, False, True)]) = 0"
  by (simp add: counter_eval)

section \<open>The threshold flag of the counter\<close>

text \<open>
  C7. After every call of \<^verbatim>\<open>update\<close>, whatever the preset and whatever the calls made
  since construction, \<^verbatim>\<open>CNT\<close> is true exactly when \<^verbatim>\<open>count >= preset\<close>.
\<close>

theorem CNT_iff_count_ge_preset:
  "calls \<noteq> [] \<Longrightarrow>
   CNT (RisingEdgeCounter_run (RisingEdgeCounter_ctor this p) calls)
     = (sint p \<le> sint (count (RisingEdgeCounter_run (RisingEdgeCounter_ctor this p) calls)))"
proof (cases calls rule: rev_cases)
  case Nil
  assume "calls \<noteq> []"
  with Nil show ?thesis by simp
next
  case (snoc xs x)
  obtain u d r where x: "x = (u, d, r)" by (cases x)
  show ?thesis
    unfolding snoc x run_snoc
    using update_CNT [of "RisingEdgeCounter_run (RisingEdgeCounter_ctor this p) xs" u d r]
    by simp
qed

text \<open>With preset 3: at count 2 the flag is clear, at count 3 it is set.\<close>

theorem CNT_iff_count_ge_preset_witness:
  "pulses 2 \<noteq> [] \<and> pulses 3 \<noteq> []
   \<and> sint (count (RisingEdgeCounter_run
        (RisingEdgeCounter_ctor (zeroed_RisingEdgeCounter :: (16, 32) RisingEdgeCounter) 3)
        (pulses 2))) = 2
   \<and> \<not> CNT (RisingEdgeCounter_run
        (RisingEdgeCounter_ctor (zeroed_RisingEdgeCounter :: (16, 32) RisingEdgeCounter) 3)
        (pulses 2))
   \<and> sint (count (RisingEdgeCounter_run
        (RisingEdgeCounter_ctor (zeroed_RisingEdgeCounter :: (16, 32) RisingEdgeCounter) 3)
        (pulses 3))) = 3
   \<and> CNT (RisingEdgeCounter_run
        (RisingEdgeCounter_ctor (zeroed_RisingEdgeCounter :: (16, 32) RisingEdgeCounter) 3)
        (pulses 3))"
  using
    CNT_iff_count_ge_preset
      [of "pulses 2" "zeroed_RisingEdgeCounter :: (16, 32) RisingEdgeCounter" 3]
    CNT_iff_count_ge_preset
      [of "pulses 3" "zeroed_RisingEdgeCounter :: (16, 32) RisingEdgeCounter" 3]
  by (simp add: counter_eval pulses_def numeral_2_eq_2 numeral_3_eq_3)

section \<open>The timers\<close>

lemma FSMTimer_run_snoc:
  "FSMTimer_run c (xs @ [(e, t)]) = FSMTimer_update (FSMTimer_run c xs) e t"
  by (induction xs arbitrary: c) auto

lemma FSMFastTimer_run_snoc:
  "FSMFastTimer_run c (xs @ [(e, t)]) = FSMFastTimer_update (FSMFastTimer_run c xs) e t"
  by (induction xs arbitrary: c) auto

text \<open>A call with \<^verbatim>\<open>enable\<close> false in the waiting mode.\<close>

lemma FSMTimer_disabled_step:
  "FSMTimer.state_Waiting c \<Longrightarrow> \<not> FSMTimer.state_Timing c \<Longrightarrow>
   FSMTimer.state_Waiting (FSMTimer_update c False t)
   \<and> \<not> FSMTimer.state_Timing (FSMTimer_update c False t)
   \<and> FSMTimer.duration (FSMTimer_update c False t) = FSMTimer.duration c
   \<and> FSMTimer.elapsed (FSMTimer_update c False t) = 0
   \<and> FSMTimer.TMR (FSMTimer_update c False t) = (FSMTimer.duration c = 0)"
  by (simp add: FSMTimer_update_def Let_def)

lemma FSMFastTimer_disabled_step:
  "FSMFastTimer.state_Waiting c \<Longrightarrow> \<not> FSMFastTimer.state_Timing c \<Longrightarrow>
   FSMFastTimer.state_Waiting (FSMFastTimer_update c False t)
   \<and> \<not> FSMFastTimer.state_Timing (FSMFastTimer_update c False t)
   \<and> FSMFastTimer.duration (FSMFastTimer_update c False t) = FSMFastTimer.duration c
   \<and> FSMFastTimer.elapsed (FSMFastTimer_update c False t) = 0
   \<and> FSMFastTimer.TMR (FSMFastTimer_update c False t) = (FSMFastTimer.duration c = 0)"
  by (simp add: FSMFastTimer_update_def Let_def)

text \<open>Calls with \<^verbatim>\<open>enable\<close> false, one per clock reading of the list.\<close>

lemma FSMTimer_disabled_run:
  "FSMTimer.state_Waiting c \<Longrightarrow> \<not> FSMTimer.state_Timing c \<Longrightarrow>
   FSMTimer.state_Waiting (FSMTimer_run c (map (Pair False) clock))
   \<and> \<not> FSMTimer.state_Timing (FSMTimer_run c (map (Pair False) clock))
   \<and> FSMTimer.duration (FSMTimer_run c (map (Pair False) clock)) = FSMTimer.duration c
   \<and> (clock \<noteq> [] \<longrightarrow>
        FSMTimer.elapsed (FSMTimer_run c (map (Pair False) clock)) = 0
        \<and> FSMTimer.TMR (FSMTimer_run c (map (Pair False) clock)) = (FSMTimer.duration c = 0))"
proof (induction clock rule: rev_induct)
  case Nil
  then show ?case by simp
next
  case (snoc t ts)
  from snoc.IH [OF snoc.prems]
  have ih: "FSMTimer.state_Waiting (FSMTimer_run c (map (Pair False) ts))"
    "\<not> FSMTimer.state_Timing (FSMTimer_run c (map (Pair False) ts))"
    "FSMTimer.duration (FSMTimer_run c (map (Pair False) ts)) = FSMTimer.duration c"
    by auto
  from FSMTimer_disabled_step [OF ih(1) ih(2), of t] ih(3)
  show ?case by (simp add: FSMTimer_run_snoc)
qed

lemma FSMFastTimer_disabled_run:
  "FSMFastTimer.state_Waiting c \<Longrightarrow> \<not> FSMFastTimer.state_Timing c \<Longrightarrow>
   FSMFastTimer.state_Waiting (FSMFastTimer_run c (map (Pair False) clock))
   \<and> \<not> FSMFastTimer.state_Timing (FSMFastTimer_run c (map (Pair False) clock))
   \<and> FSMFastTimer.duration (FSMFastTimer_run c (map (Pair False) clock))
       = FSMFastTimer.duration c
   \<and> (clock \<noteq> [] \<longrightarrow>
        FSMFastTimer.elapsed (FSMFastTimer_run c (map (Pair False) clock)) = 0
        \<and> FSMFastTimer.TMR (FSMFastTimer_run c (map (Pair False) clock))
            = (FSMFastTimer.duration c = 0))"
proof (induction clock rule: rev_induct)
  case Nil
  then show ?case by simp
next
  case (snoc t ts)
  from snoc.IH [OF snoc.prems]
  have ih: "FSMFastTimer.state_Waiting (FSMFastTimer_run c (map (Pair False) ts))"
    "\<not> FSMFastTimer.state_Timing (FSMFastTimer_run c (map (Pair False) ts))"
    "FSMFastTimer.duration (FSMFastTimer_run c (map (Pair False) ts)) = FSMFastTimer.duration c"
    by auto
  from FSMFastTimer_disabled_step [OF ih(1) ih(2), of t] ih(3)
  show ?case by (simp add: FSMFastTimer_run_snoc)
qed

text \<open>
  C8, as stated, fails: the claim is that a timer of any duration that has only been
  called with \<^verbatim>\<open>enable\<close> false has \<^verbatim>\<open>TMR\<close> false. With duration 0 the first such call
  sets \<^verbatim>\<open>TMR\<close>, since \<^verbatim>\<open>elapsed >= duration\<close> is \<^verbatim>\<open>0 >= 0\<close>.
\<close>

theorem disabled_timer_zero_duration_counterexample:
  "FSMTimer.TMR (FSMTimer_run (FSMTimer_ctor (zeroed_FSMTimer :: 32 FSMTimer) 0 1000)
      [(False, 1000)])
   \<and> FSMFastTimer.TMR
       (FSMFastTimer_run (FSMFastTimer_ctor (zeroed_FSMFastTimer :: 32 FSMFastTimer) 0 1000)
      [(False, 1000)])"
  by (simp add: timer_eval)

text \<open>
  C8, amended. For a timer of either class and any duration, constructed at any clock
  reading: after each of one or more calls with \<^verbatim>\<open>enable\<close> false, at any clock
  readings, \<^verbatim>\<open>elapsed\<close> is 0, and \<^verbatim>\<open>TMR\<close> is false when the duration is not 0 and true
  when it is 0.
\<close>

theorem disabled_timer_elapsed_zero:
  "clock \<noteq> [] \<Longrightarrow>
   FSMTimer.elapsed (FSMTimer_run (FSMTimer_ctor this d now) (map (Pair False) clock)) = 0
   \<and> FSMTimer.TMR (FSMTimer_run (FSMTimer_ctor this d now) (map (Pair False) clock)) = (d = 0)
   \<and> FSMFastTimer.elapsed
        (FSMFastTimer_run (FSMFastTimer_ctor fast d now) (map (Pair False) clock)) = 0
   \<and> FSMFastTimer.TMR
        (FSMFastTimer_run (FSMFastTimer_ctor fast d now) (map (Pair False) clock)) = (d = 0)"
  using FSMTimer_disabled_run [of "FSMTimer_ctor this d now" clock]
    FSMFastTimer_disabled_run [of "FSMFastTimer_ctor fast d now" clock]
  by (simp add: FSMTimer_ctor_def FSMFastTimer_ctor_def)

theorem disabled_timer_elapsed_zero_witness:
  "[7, 50, 4000 :: 32 word] \<noteq> []
   \<and> FSMTimer.elapsed (FSMTimer_run (FSMTimer_ctor (zeroed_FSMTimer :: 32 FSMTimer) 100 3)
        (map (Pair False) [7, 50, 4000])) = 0
   \<and> \<not> FSMTimer.TMR (FSMTimer_run (FSMTimer_ctor (zeroed_FSMTimer :: 32 FSMTimer) 100 3)
        (map (Pair False) [7, 50, 4000]))
   \<and> FSMFastTimer.elapsed
        (FSMFastTimer_run (FSMFastTimer_ctor (zeroed_FSMFastTimer :: 32 FSMFastTimer) 100 3)
        (map (Pair False) [7, 50, 4000])) = 0
   \<and> \<not> FSMFastTimer.TMR
        (FSMFastTimer_run (FSMFastTimer_ctor (zeroed_FSMFastTimer :: 32 FSMFastTimer) 100 3)
        (map (Pair False) [7, 50, 4000]))"
  using disabled_timer_elapsed_zero
    [of "[7, 50, 4000 :: 32 word]" "zeroed_FSMTimer :: 32 FSMTimer" 100 3
        "zeroed_FSMFastTimer :: 32 FSMFastTimer"]
  by (simp add: timer_eval)

text \<open>
  C9. The two \<^verbatim>\<open>update\<close> functions are the same function of the state, the enable input
  and the clock reading: from a timer and a fast timer that agree on the mode flags, the
  start time and the duration, a call with the same \<^verbatim>\<open>enable\<close> and the same reading
  leaves them agreeing on the mode flags, the start time, \<^verbatim>\<open>elapsed\<close>, \<^verbatim>\<open>TMR\<close> and the
  duration.
\<close>

theorem timers_same_update:
  "FSMTimer.state_Waiting a = FSMFastTimer.state_Waiting b \<Longrightarrow>
   FSMTimer.state_Timing a = FSMFastTimer.state_Timing b \<Longrightarrow>
   FSMTimer.startTime a = FSMFastTimer.startTime b \<Longrightarrow>
   FSMTimer.duration a = FSMFastTimer.duration b \<Longrightarrow>
   FSMTimer.state_Waiting (FSMTimer_update a enable reading)
     = FSMFastTimer.state_Waiting (FSMFastTimer_update b enable reading)
   \<and> FSMTimer.state_Timing (FSMTimer_update a enable reading)
     = FSMFastTimer.state_Timing (FSMFastTimer_update b enable reading)
   \<and> FSMTimer.startTime (FSMTimer_update a enable reading)
     = FSMFastTimer.startTime (FSMFastTimer_update b enable reading)
   \<and> FSMTimer.elapsed (FSMTimer_update a enable reading)
     = FSMFastTimer.elapsed (FSMFastTimer_update b enable reading)
   \<and> FSMTimer.TMR (FSMTimer_update a enable reading)
     = FSMFastTimer.TMR (FSMFastTimer_update b enable reading)
   \<and> FSMTimer.duration (FSMTimer_update a enable reading)
     = FSMFastTimer.duration (FSMFastTimer_update b enable reading)"
  by (simp add: FSMTimer_update_def FSMFastTimer_update_def Let_def)

theorem timers_same_update_witness:
  "FSMTimer.state_Timing
     (FSMTimer_update (FSMTimer_ctor (zeroed_FSMTimer :: 32 FSMTimer) 100 20) True 20)
   \<and> FSMFastTimer.state_Timing
     (FSMFastTimer_update (FSMFastTimer_ctor (zeroed_FSMFastTimer :: 32 FSMFastTimer) 100 20)
        True 20)
   \<and> FSMTimer.elapsed (FSMTimer_update
       (FSMTimer_update (FSMTimer_ctor (zeroed_FSMTimer :: 32 FSMTimer) 100 20) True 20)
       True 170) = 150
   \<and> FSMFastTimer.elapsed (FSMFastTimer_update
       (FSMFastTimer_update (FSMFastTimer_ctor (zeroed_FSMFastTimer :: 32 FSMFastTimer) 100 20)
          True 20)
       True 170) = 150
   \<and> FSMTimer.TMR (FSMTimer_update
       (FSMTimer_update (FSMTimer_ctor (zeroed_FSMTimer :: 32 FSMTimer) 100 20) True 20)
       True 170)
   \<and> FSMFastTimer.TMR (FSMFastTimer_update
       (FSMFastTimer_update (FSMFastTimer_ctor (zeroed_FSMFastTimer :: 32 FSMFastTimer) 100 20)
          True 20)
       True 170)"
  using timers_same_update
    [of "FSMTimer_update (FSMTimer_ctor (zeroed_FSMTimer :: 32 FSMTimer) 100 20) True 20"
        "FSMFastTimer_update
           (FSMFastTimer_ctor (zeroed_FSMFastTimer :: 32 FSMFastTimer) 100 20) True 20"
        True 170]
  by (simp add: timer_eval)

section \<open>The constructors\<close>

text \<open>
  C10. No constructor assigns the threshold flag. The object a constructor returns has
  every field but the flag fixed by the arguments (and, for the timers, the clock reading);
  its flag is whatever the storage held, true or false, until the first call of
  \<^verbatim>\<open>update\<close>.
\<close>

theorem constructors_leave_flag:
  "RisingEdgeCounter_ctor this p =
     \<lparr>preset = p, count = 0, CNT = CNT this, state_Waiting = True, state_Up = False,
      state_Down = False, state_RST = False, in_Up_Old = False, in_Down_Old = False\<rparr>
   \<and> CNT (RisingEdgeCounter_ctor (this\<lparr>CNT := flag\<rparr>) p) = flag
   \<and> FSMTimer_ctor timer d millis =
     \<lparr>FSMTimer.duration = d, FSMTimer.elapsed = 0, FSMTimer.TMR = FSMTimer.TMR timer,
      FSMTimer.startTime = millis, FSMTimer.state_Waiting = True,
      FSMTimer.state_Timing = False\<rparr>
   \<and> FSMTimer.TMR (FSMTimer_ctor (timer\<lparr>FSMTimer.TMR := flag\<rparr>) d millis) = flag
   \<and> FSMFastTimer_ctor fast d micros =
     \<lparr>FSMFastTimer.duration = d, FSMFastTimer.elapsed = 0,
      FSMFastTimer.TMR = FSMFastTimer.TMR fast,
      FSMFastTimer.startTime = micros, FSMFastTimer.state_Waiting = True,
      FSMFastTimer.state_Timing = False\<rparr>
   \<and> FSMFastTimer.TMR (FSMFastTimer_ctor (fast\<lparr>FSMFastTimer.TMR := flag\<rparr>) d micros) = flag"
  by (simp add: RisingEdgeCounter_ctor_def FSMTimer_ctor_def FSMFastTimer_ctor_def)

end
